theory Spec2Isabelle
  imports Complex_Main "HOL-Library.AList"
begin

section \<open>Strings, file names and broadcast codes\<close>

text \<open>
  A JavaScript string is modelled as a \<^typ>\<open>string\<close>: one \<^typ>\<open>char\<close> stands for one
  UTF-16 code unit. The regular expression of \<open>pushBroadcast\<close> has no \<open>u\<close> flag, so it
  replaces code unit by code unit.
\<close>

definition isAlnum :: "char \<Rightarrow> bool" where
  \<comment> \<open>the character class \<open>[a-zA-Z0-9]\<close>: three ranges of code units\<close>
  "isAlnum c \<longleftrightarrow>
     (let n = of_char c :: nat
      in (97 \<le> n \<and> n \<le> 122) \<or> (65 \<le> n \<and> n \<le> 90) \<or> (48 \<le> n \<and> n \<le> 57))"

definition deriveFileName :: "string \<Rightarrow> string" where
  \<comment> \<open>\<open>title.replace(/[^a-zA-Z0-9]/g, '_')\<close>\<close>
  "deriveFileName title = map (\<lambda>c. if isAlnum c then c else CHR ''_'') title"

definition chars :: string where
  "chars = ''ABCDEFGHJKLMNPQRSTUVWXYZ23456789''"

definition charAt :: "string \<Rightarrow> int \<Rightarrow> string" where
  \<comment> \<open>\<open>String.prototype.charAt\<close>: the empty string when the index is out of range\<close>
  "charAt s i = (if 0 \<le> i \<and> i < int (length s) then [s ! nat i] else [])"

text \<open>
  \<open>Math.random()\<close> is an input: \<open>random i\<close> is the value of its \<open>i\<close>-th call within one
  run of \<open>generateCode\<close>. The product with \<open>chars.length = 32\<close>, a power of two, is exact
  in double precision, so the real product followed by \<open>floor\<close> is what the code computes.
\<close>

function generateCode_loop :: "(nat \<Rightarrow> real) \<Rightarrow> nat \<Rightarrow> string \<Rightarrow> string" where
  "generateCode_loop random i code =
     (if i < 6
      then generateCode_loop random (i + 1)
             (code @ charAt chars \<lfloor>random i * real (length chars)\<rfloor>)
      else code)"
  by pat_completeness auto
termination
  by (relation "measure (\<lambda>(random, i, code). 6 - i)") auto

declare generateCode_loop.simps [simp del]

definition generateCode :: "(nat \<Rightarrow> real) \<Rightarrow> string" where
  "generateCode random = generateCode_loop random 0 []"

section \<open>The schedule table and its capture\<close>

text \<open>
  The part of the DOM that \<open>captureTableHTML\<close> reads and writes: an element has its
  lower-case local name, its class list, its attributes, its inline style declarations and
  its children. Values are immutable in HOL, so \<open>table.cloneNode(true)\<close> is the table
  itself and every later step returns a new tree.
\<close>

datatype node =
    Element (localName: string) (classList: "string list")
            (attributes: "(string \<times> string) list") (style: "(string \<times> string) list")
            (childNodes: "node list")
  | Text string

record column =
  key :: string
  print :: bool

record project_meta =
  meta_title :: "string option"

record app_state =
  cols :: "column list option"
  projectMeta :: "project_meta option"

record snapshot =
  styleSheet :: string
  markup :: node

datatype error =
    Error string
  | StoreError string
  | OutsideModel

datatype log_entry =
    ConsoleLog string "string option"
  | ConsoleError string "error option"

fun matchesKey :: "string \<Rightarrow> string \<Rightarrow> node \<Rightarrow> bool" where
  \<comment> \<open>the compound selector \<open>tag[data-key="key"]\<close>\<close>
  "matchesKey tag k (Element t cs as st ch) = (t = tag \<and> map_of as ''data-key'' = Some k)"
| "matchesKey tag k (Text s) = False"

text \<open>
  \<open>clone.querySelector('anc sel')\<close> followed by \<open>el.style.p = v\<close> on the element found:
  the first element in document order that matches \<open>sel\<close> and has an ancestor named
  \<open>anc\<close>. The flag \<open>inside\<close> says that such an ancestor has been passed; the result says
  whether an element was found.
\<close>

fun styleFirst :: "string \<Rightarrow> (node \<Rightarrow> bool) \<Rightarrow> string \<Rightarrow> string \<Rightarrow> bool \<Rightarrow> node \<Rightarrow> node \<times> bool"
  and styleFirstList ::
    "string \<Rightarrow> (node \<Rightarrow> bool) \<Rightarrow> string \<Rightarrow> string \<Rightarrow> bool \<Rightarrow> node list \<Rightarrow> node list \<times> bool"
where
  "styleFirst anc sel p v inside (Text s) = (Text s, False)"
| "styleFirst anc sel p v inside (Element t cs as st ch) =
     (if inside \<and> sel (Element t cs as st ch)
      then (Element t cs as (AList.update p v st) ch, True)
      else (case styleFirstList anc sel p v (inside \<or> t = anc) ch of
              (ch', found) \<Rightarrow> (Element t cs as st ch', found)))"
| "styleFirstList anc sel p v inside [] = ([], False)"
| "styleFirstList anc sel p v inside (n # ns) =
     (case styleFirst anc sel p v inside n of
        (n', True) \<Rightarrow> (n' # ns, True)
      | (n', False) \<Rightarrow>
          (case styleFirstList anc sel p v inside ns of (ns', found) \<Rightarrow> (n' # ns', found)))"

fun styleAll :: "string \<Rightarrow> (node \<Rightarrow> bool) \<Rightarrow> string \<Rightarrow> string \<Rightarrow> bool \<Rightarrow> node \<Rightarrow> node" where
  \<comment> \<open>\<open>querySelectorAll('anc sel').forEach(el => el.style.p = v)\<close> on a node and what
      is below it\<close>
  "styleAll anc sel p v inside (Text s) = Text s"
| "styleAll anc sel p v inside (Element t cs as st ch) =
     Element t cs as
       (if inside \<and> sel (Element t cs as st ch) then AList.update p v st else st)
       (map (styleAll anc sel p v (inside \<or> t = anc)) ch)"

text \<open>
  \<open>querySelector\<close> and \<open>querySelectorAll\<close> called on the clone return elements below
  the clone, never the clone itself; the clone, the root of a detached tree, can be the
  ancestor \<open>anc\<close>.
\<close>

fun querySelectorStyle :: "string \<Rightarrow> (node \<Rightarrow> bool) \<Rightarrow> string \<Rightarrow> string \<Rightarrow> node \<Rightarrow> node" where
  "querySelectorStyle anc sel p v (Element t cs as st ch) =
     Element t cs as st (fst (styleFirstList anc sel p v (t = anc) ch))"
| "querySelectorStyle anc sel p v (Text s) = Text s"

fun querySelectorAllStyle :: "string \<Rightarrow> (node \<Rightarrow> bool) \<Rightarrow> string \<Rightarrow> string \<Rightarrow> node \<Rightarrow> node" where
  "querySelectorAllStyle anc sel p v (Element t cs as st ch) =
     Element t cs as st (map (styleAll anc sel p v (t = anc)) ch)"
| "querySelectorAllStyle anc sel p v (Text s) = Text s"

definition hideKey :: "string \<Rightarrow> node \<Rightarrow> node" where
  \<comment> \<open>the body of \<open>hiddenCols.forEach\<close>: the column definition, the header cell, the body
      cells. An inline style holds the declarations as the snapshot carries them:
      \<open>col.style.width = '0'\<close> is stored as \<open>width: 0px\<close>\<close>
  "hideKey k clone =
     querySelectorAllStyle ''tbody'' (matchesKey ''td'' k) ''display'' ''none''
       (querySelectorStyle ''thead'' (matchesKey ''th'' k) ''display'' ''none''
          (querySelectorStyle ''colgroup'' (matchesKey ''col'' k) ''width'' ''0px'' clone))"

fun interactive :: "node \<Rightarrow> bool" where
  \<comment> \<open>the selector list \<open>button, input, .drag-cell, .sharpie, .actions-cell\<close>\<close>
  "interactive (Element t cs as st ch) =
     (t = ''button'' \<or> t = ''input'' \<or> ''drag-cell'' \<in> set cs \<or> ''sharpie'' \<in> set cs
      \<or> ''actions-cell'' \<in> set cs)"
| "interactive (Text s) = False"

fun removeElements :: "(node \<Rightarrow> bool) \<Rightarrow> node \<Rightarrow> node" where
  \<comment> \<open>\<open>querySelectorAll(sel).forEach(el => el.remove())\<close>: every matching element below
      the node leaves the tree, with its subtree\<close>
  "removeElements sel (Element t cs as st ch) =
     Element t cs as st (map (removeElements sel) (filter (\<lambda>c. \<not> sel c) ch))"
| "removeElements sel (Text s) = Text s"

fun removeAttribute :: "string \<Rightarrow> node \<Rightarrow> node" where
  "removeAttribute a (Element t cs as st ch) =
     Element t cs (filter (\<lambda>(n, v). n \<noteq> a) as) st ch"
| "removeAttribute a (Text s) = Text s"

fun removeAttributeDeep :: "string \<Rightarrow> node \<Rightarrow> node" where
  \<comment> \<open>\<open>removeAttribute\<close> on a node and on every element below it\<close>
  "removeAttributeDeep a (Element t cs as st ch) =
     removeAttribute a (Element t cs as st (map (removeAttributeDeep a) ch))"
| "removeAttributeDeep a (Text s) = Text s"

fun removeDraggable :: "node \<Rightarrow> node" where
  \<comment> \<open>\<open>clone.querySelectorAll('[draggable]').forEach(el => el.removeAttribute('draggable'))\<close>\<close>
  "removeDraggable (Element t cs as st ch) =
     Element t cs as st (map (removeAttributeDeep ''draggable'') ch)"
| "removeDraggable (Text s) = Text s"

definition captureStyles :: string where
  "captureStyles = ''
      .broadcast-schedule {
        font-family: 'Avenir', 'Century Gothic', -apple-system, sans-serif;
        font-size: 12px;
        background: #fff;
        color: #000;
      }
      
      .broadcast-schedule table {
        width: 100%;
        border-collapse: collapse;
        table-layout: fixed;
      }
      
      .broadcast-schedule th,
      .broadcast-schedule td {
        padding: 8px 6px;
        text-align: left;
        vertical-align: middle;
        border: 1px solid #ddd;
      }
      
      .broadcast-schedule thead th {
        background: #f5f5f5;
        font-weight: 600;
        text-transform: uppercase;
        font-size: 11px;
        letter-spacing: 0.5px;
      }
      
      .broadcast-schedule tbody tr:nth-child(even) {
        background: #fafafa;
      }
      
      .broadcast-schedule .row-complete {
        opacity: 0.5;
      }
      
      .broadcast-schedule .row-complete td {
        text-decoration: line-through;
        text-decoration-color: #e53935;
      }
      
      .broadcast-schedule .event-row,
      .broadcast-schedule tr[data-type=\"EVENT\"] {
        background: #e3f2fd !important;
      }
      
      .broadcast-schedule .calltime-row,
      .broadcast-schedule tr[data-type=\"CALLTIME\"] {
        background: #e8f5e9 !important;
        font-weight: 600;
      }
      
      .broadcast-schedule img {
        max-width: 100px;
        max-height: 60px;
        object-fit: contain;
      }
      
      /* Preserve inline styles from cells */
      .broadcast-schedule [style] {
        /* Allow inline styles to override */
      }
    ''"

definition stateCols :: "app_state option \<Rightarrow> column list" where
  \<comment> \<open>\<open>window.readState?.()?.cols || []\<close>\<close>
  "stateCols st =
     (case st of None \<Rightarrow> [] | Some s \<Rightarrow> (case cols s of None \<Rightarrow> [] | Some cs \<Rightarrow> cs))"

definition hiddenCols :: "app_state option \<Rightarrow> string list" where
  "hiddenCols st =
     map key (filter (\<lambda>c. \<not> print c) (stateCols st)) @ [''drag'', ''sharpie'', ''actions'']"

text \<open>
  The selector text \<open>[data-key="${key}"]\<close> is one attribute test for the value \<open>key\<close>
  only when the key has no double quote, backslash, line break or NUL in it. For other keys
  the text means something else, or \<open>querySelector\<close> throws a \<open>SyntaxError\<close>; the model
  makes no statement about them and answers \<open>OutsideModel\<close>.
\<close>

definition plainKey :: "string \<Rightarrow> bool" where
  "plainKey k =
     list_all (\<lambda>c. c \<noteq> CHR 0x22 \<and> c \<noteq> CHR 0x5C \<and> c \<noteq> CHR 0x0A \<and> c \<noteq> CHR 0x0D
                   \<and> c \<noteq> CHR 0x0C \<and> c \<noteq> CHR 0x00) k"

definition captureClone :: "string list \<Rightarrow> node \<Rightarrow> node" where
  "captureClone hidden table = removeDraggable (removeElements interactive (fold hideKey hidden table))"

definition captureTableHTML ::
  "node option \<Rightarrow> app_state option \<Rightarrow> log_entry list \<Rightarrow> (error + snapshot option) \<times> log_entry list"
where
  \<comment> \<open>the result is the pair of the two parts the template string is built from;
      \<open>None\<close> is \<open>null\<close>\<close>
  "captureTableHTML table st console =
     (case table of
        None \<Rightarrow> (Inr None, console @ [ConsoleError ''[Broadcast] No schedule table found'' None])
      | Some t \<Rightarrow>
          (let hidden = hiddenCols st
           in if \<not> list_all plainKey hidden then (Inl OutsideModel, console)
              else (Inr (Some \<lparr>styleSheet = captureStyles, markup = captureClone hidden t\<rparr>),
                    console)))"

section \<open>The collaborators: identity, record store, blob store\<close>

record user =
  uid :: string

record auth_api =
  isAuthenticated :: bool
  getCurrentUser :: "user option"

record broadcast =
  b_id :: nat
  code :: string
  user_id :: string
  file_name :: string
  title :: string
  auto_update :: bool
  updated_at :: string

record options =
  opt_title :: "string option"
  autoUpdate :: "bool option"

record push_result =
  res_code :: string
  url :: string
  res_title :: string

datatype remote_call =
    RecordSelect string string
  | RecordUpdate nat string bool string
  | RecordInsert string string string string bool
  | BlobRemove string
  | BlobUpload string

text \<open>
  What one run of \<open>pushBroadcast\<close> reads from outside the module: the identity provider
  (\<open>None\<close> when the optional chain \<open>window.SupabaseAPI?.auth?.isAuthenticated?.()\<close> meets
  a missing link), the element \<open>document.querySelector('.schedule')\<close> finds, the value of
  \<open>window.readState?.()\<close>, the values of \<open>Math.random()\<close>, the clocks, and which of the
  remote calls fail.
\<close>

record env =
  SupabaseAPI :: "auth_api option"
  schedule :: "node option"
  readState :: "app_state option"
  random :: "nat \<Rightarrow> real"
  now :: string
  store_now :: string
  select_fails :: bool
  remove_fails :: bool
  upload_error :: "string option"
  update_error :: "string option"
  insert_error :: "string option"

text \<open>
  The module's two variables, the remote table \<open>broadcasts\<close>, the bucket
  \<open>schedule-files\<close>, the console, and two records kept for the proofs: the remote calls
  made so far and the arguments of every entry into \<open>pushBroadcast\<close>.
\<close>

record world =
  currentBroadcast :: "broadcast option"
  autoBroadcast :: bool
  broadcasts :: "broadcast list"
  next_id :: nat
  files :: "(string \<times> snapshot) list"
  calls :: "remote_call list"
  console :: "log_entry list"
  pushCalls :: "options list"

definition BROADCAST_VIEWER_URL :: string where
  "BROADCAST_VIEWER_URL = ''https://marcoajello.github.io/skeduler-broadcast/''"

definition selectSingle :: "env \<Rightarrow> string \<Rightarrow> string \<Rightarrow> world \<Rightarrow> broadcast option \<times> world" where
  \<comment> \<open>Modelled from the spec: the record store's \<open>find\<close>, called as
      \<open>from('broadcasts').select('*').eq('user_id', u).eq('file_name', f).single()\<close>. The
      code reads \<open>data\<close> only: the record when exactly one matches, \<open>null\<close> otherwise and
      when the request fails\<close>
  "selectSingle e u f w =
     (let w' = w\<lparr>calls := calls w @ [RecordSelect u f]\<rparr>
      in if select_fails e then (None, w')
         else (case filter (\<lambda>b. user_id b = u \<and> file_name b = f) (broadcasts w) of
                 [b] \<Rightarrow> (Some b, w')
               | _ \<Rightarrow> (None, w')))"

definition storageRemove :: "env \<Rightarrow> string \<Rightarrow> world \<Rightarrow> world" where
  \<comment> \<open>Modelled from the spec: the blob store's best-effort \<open>remove\<close>, called as
      \<open>storage.from('schedule-files').remove([path])\<close> inside \<open>try\<close>/\<open>catch\<close>: its
      outcome is dropped\<close>
  "storageRemove e path w =
     w\<lparr>calls := calls w @ [BlobRemove path],
       files := (if remove_fails e then files w else filter (\<lambda>(p, body). p \<noteq> path) (files w))\<rparr>"

definition storageUpload :: "env \<Rightarrow> string \<Rightarrow> snapshot \<Rightarrow> world \<Rightarrow> string option \<times> world" where
  \<comment> \<open>Modelled from the spec: the blob store's \<open>upload\<close> without overwrite, called as
      \<open>upload(path, blob, {cacheControl: '60', upsert: false})\<close>: the error, if any; an
      object already at the path is an error\<close>
  "storageUpload e path body w =
     (let w' = w\<lparr>calls := calls w @ [BlobUpload path]\<rparr>
      in case upload_error e of
           Some err \<Rightarrow> (Some err, w')
         | None \<Rightarrow>
             if map_of (files w) path \<noteq> None then (Some ''The resource already exists'', w')
             else (None, w'\<lparr>files := files w @ [(path, body)]\<rparr>))"

definition updateSingle ::
  "env \<Rightarrow> nat \<Rightarrow> string \<Rightarrow> bool \<Rightarrow> string \<Rightarrow> world \<Rightarrow> (string + broadcast) \<times> world"
where
  \<comment> \<open>Modelled from the spec: the record store's \<open>update\<close>, called as
      \<open>update({title, auto_update, updated_at}).eq('id', i).select().single()\<close>: the updated
      record when exactly one has the id, an error otherwise\<close>
  "updateSingle e i t au ts w =
     (let w' = w\<lparr>calls := calls w @ [RecordUpdate i t au ts]\<rparr>
      in case update_error e of
           Some err \<Rightarrow> (Inl err, w')
         | None \<Rightarrow>
             (let rows = map (\<lambda>b. if b_id b = i
                                    then b\<lparr>title := t, auto_update := au, updated_at := ts\<rparr>
                                    else b) (broadcasts w);
                  w'' = w'\<lparr>broadcasts := rows\<rparr>
              in case filter (\<lambda>b. b_id b = i) rows of
                   [b] \<Rightarrow> (Inr b, w'')
                 | _ \<Rightarrow> (Inl ''PGRST116'', w'')))"

definition insertSingle ::
  "env \<Rightarrow> string \<Rightarrow> string \<Rightarrow> string \<Rightarrow> string \<Rightarrow> bool \<Rightarrow> world \<Rightarrow> (string + broadcast) \<times> world"
where
  \<comment> \<open>Modelled from the spec: the record store's \<open>create\<close>, called as
      \<open>insert({code, user_id, file_name, title, auto_update}).select().single()\<close>. The
      store keeps at most one record for each pair of owner and file name and answers a
      second create for a pair with an error; it gives a new record its id and its
      timestamp\<close>
  "insertSingle e c u f t au w =
     (let w' = w\<lparr>calls := calls w @ [RecordInsert c u f t au]\<rparr>
      in case insert_error e of
           Some err \<Rightarrow> (Inl err, w')
         | None \<Rightarrow>
             if filter (\<lambda>b. user_id b = u \<and> file_name b = f) (broadcasts w) \<noteq> []
             then (Inl ''23505'', w')
             else (let row = \<lparr>b_id = next_id w, code = c, user_id = u, file_name = f,
                              title = t, auto_update = au, updated_at = store_now e\<rparr>
                   in (Inr row,
                       w'\<lparr>broadcasts := broadcasts w @ [row], next_id := next_id w + 1\<rparr>)))"

section \<open>Publishing\<close>

definition orElse :: "string option \<Rightarrow> string \<Rightarrow> string" where
  \<comment> \<open>\<open>x || y\<close> for a string or \<open>undefined\<close> on the left: \<open>undefined\<close> and the empty
      string are falsy\<close>
  "orElse x y = (case x of None \<Rightarrow> y | Some s \<Rightarrow> if s = [] then y else s)"

definition stateTitle :: "app_state option \<Rightarrow> string option" where
  \<comment> \<open>\<open>state.projectMeta?.title\<close>, where \<open>state = window.readState?.() || {}\<close>\<close>
  "stateTitle st =
     (case st of None \<Rightarrow> None
      | Some s \<Rightarrow> (case projectMeta s of None \<Rightarrow> None | Some m \<Rightarrow> meta_title m))"

definition resolveTitle :: "options \<Rightarrow> app_state option \<Rightarrow> string" where
  \<comment> \<open>\<open>options.title || state.projectMeta?.title || 'Schedule'\<close>\<close>
  "resolveTitle opts st = orElse (opt_title opts) (orElse (stateTitle st) ''Schedule'')"

definition findBroadcast :: "env \<Rightarrow> string \<Rightarrow> string \<Rightarrow> world \<Rightarrow> broadcast option \<times> world" where
  \<comment> \<open>\<open>let broadcast = currentBroadcast; if (!broadcast) { ... broadcast = data; }\<close>\<close>
  "findBroadcast e u fileName w =
     (case currentBroadcast w of
        Some b \<Rightarrow> (Some b, w)
      | None \<Rightarrow> selectSingle e u fileName w)"

definition newCode :: "env \<Rightarrow> broadcast option \<Rightarrow> string" where
  \<comment> \<open>\<open>broadcast?.code || generateCode()\<close>\<close>
  "newCode e broadcast =
     (case broadcast of
        Some b \<Rightarrow> if code b \<noteq> [] then code b else generateCode (random e)
      | None \<Rightarrow> generateCode (random e))"

definition saveBroadcast ::
  "options \<Rightarrow> env \<Rightarrow> string \<Rightarrow> string \<Rightarrow> string \<Rightarrow> string \<Rightarrow> broadcast option \<Rightarrow> world
     \<Rightarrow> (string + broadcast) \<times> world"
where
  \<comment> \<open>the branch \<open>if (broadcast) { update } else { insert }\<close>, up to its \<open>data\<close>\<close>
  "saveBroadcast opts e c u fileName t broadcast w =
     (case broadcast of
        Some b \<Rightarrow>
          updateSingle e (b_id b) t
            (case autoUpdate opts of Some a \<Rightarrow> a | None \<Rightarrow> auto_update b) (now e) w
      | None \<Rightarrow>
          insertSingle e c u fileName t
            (case autoUpdate opts of Some a \<Rightarrow> a | None \<Rightarrow> False) w)"

definition pushCaptured ::
  "options \<Rightarrow> env \<Rightarrow> user \<Rightarrow> snapshot \<Rightarrow> world \<Rightarrow> (error + push_result) \<times> world"
where
  \<comment> \<open>\<open>pushBroadcast\<close> from \<open>// Get schedule title\<close> on\<close>
  "pushCaptured opts e usr html w1 =
     (let t = resolveTitle opts (readState e);
          fileName = deriveFileName t;
          (broadcast, w2) = findBroadcast e (uid usr) fileName w1;
          c = newCode e broadcast;
          htmlPath = uid usr @ ''/'' @ fileName @ ''.html'';
          w3 = storageRemove e htmlPath w2
      in case storageUpload e htmlPath html w3 of
           (Some uploadError, w4) \<Rightarrow> (Inl (StoreError uploadError), w4)
         | (None, w4) \<Rightarrow>
             (case saveBroadcast opts e c (uid usr) fileName t broadcast w4 of
                (Inl err, w5) \<Rightarrow> (Inl (StoreError err), w5)
              | (Inr data, w5) \<Rightarrow>
                  (Inr \<lparr>res_code = code data,
                        url = BROADCAST_VIEWER_URL @ ''?c='' @ code data,
                        res_title = t\<rparr>,
                   w5\<lparr>currentBroadcast := Some data,
                      console := console w5 @
                        [ConsoleLog ''[Broadcast] Pushed successfully:'' (Some (code data))]\<rparr>)))"

definition pushBroadcast :: "options \<Rightarrow> env \<Rightarrow> world \<Rightarrow> (error + push_result) \<times> world" where
  "pushBroadcast opts e w0 =
     (let w = w0\<lparr>pushCalls := pushCalls w0 @ [opts]\<rparr>
      in case SupabaseAPI e of
           None \<Rightarrow> (Inl (Error ''Not authenticated''), w)
         | Some api \<Rightarrow>
             if \<not> isAuthenticated api then (Inl (Error ''Not authenticated''), w)
             else (case getCurrentUser api of
                     None \<Rightarrow> (Inl (Error ''No user''), w)
                   | Some usr \<Rightarrow>
                       (case captureTableHTML (schedule e) (readState e) (console w) of
                          (Inl err, con) \<Rightarrow> (Inl err, w\<lparr>console := con\<rparr>)
                        | (Inr None, con) \<Rightarrow>
                            (Inl (Error ''Could not capture table''), w\<lparr>console := con\<rparr>)
                        | (Inr (Some html), con) \<Rightarrow>
                            pushCaptured opts e usr html (w\<lparr>console := con\<rparr>))))"


section \<open>Notions of the specification and example inputs\<close>

definition authenticated :: "env \<Rightarrow> bool" where
  \<comment> \<open>an authenticated identity is available: \<open>isAuthenticated()\<close> holds and
      \<open>getCurrentUser()\<close> is not \<open>null\<close>\<close>
  "authenticated e =
     (case SupabaseAPI e of
        None \<Rightarrow> False
      | Some api \<Rightarrow> isAuthenticated api \<and> getCurrentUser api \<noteq> None)"

definition ownerId :: "env \<Rightarrow> string option" where
  \<comment> \<open>the owner a run of \<open>pushBroadcast\<close> publishes for, when there is one\<close>
  "ownerId e =
     (case SupabaseAPI e of
        None \<Rightarrow> None
      | Some api \<Rightarrow> if isAuthenticated api then map_option uid (getCurrentUser api) else None)"

abbreviation idCode :: "broadcast \<Rightarrow> nat \<times> string" where
  "idCode \<equiv> (\<lambda>b. (b_id b, code b))"

abbreviation sameRecord :: "string \<Rightarrow> string \<Rightarrow> broadcast \<Rightarrow> bool" where
  "sameRecord u f \<equiv> (\<lambda>b. user_id b = u \<and> file_name b = f)"

fun descendants :: "node \<Rightarrow> node list" where
  \<comment> \<open>every node strictly below a node, in document order\<close>
  "descendants (Element t cs as st ch) = concat (map (\<lambda>c. c # descendants c) ch)"
| "descendants (Text s) = []"

fun hasAttribute :: "string \<Rightarrow> node \<Rightarrow> bool" where
  "hasAttribute a (Element t cs as st ch) = (map_of as a \<noteq> None)"
| "hasAttribute a (Text s) = False"

type_synonym view = "string option \<times> (string \<times> string) list"




definition kept :: "(bool \<times> view) list \<Rightarrow> view list" where
  \<comment> \<open>the elements that are not flagged\<close>
  "kept xs = map snd (filter (\<lambda>x. \<not> fst x) xs)"






fun eraseOthers :: "string \<Rightarrow> node \<Rightarrow> node" where
  \<comment> \<open>a tree without the inline styles of the elements that are not named \<open>keep\<close>\<close>
  "eraseOthers keep (Element t cs as st ch) =
     Element t cs as (if t = keep then st else []) (map (eraseOthers keep) ch)"
| "eraseOthers keep (Text s) = Text s"

definition example_table :: node where
  "example_table =
     Element ''table'' [''schedule''] [] []
       [Element ''colgroup'' [] [] []
          [Element ''col'' [] [(''data-key'', ''notes'')] [] []],
        Element ''thead'' [] [] []
          [Element ''tr'' [] [] []
             [Element ''th'' [] [(''data-key'', ''notes'')] [] [Text ''Notes'']]],
        Element ''tbody'' [] [] []
          [Element ''tr'' [] [(''draggable'', ''true'')] []
             [Element ''td'' [''drag-cell''] [(''data-key'', ''drag'')] [] [],
              Element ''td'' [] [(''data-key'', ''notes'')] []
                [Text ''hello'', Element ''button'' [] [] [] []],
              Element ''td'' [] [(''data-key'', ''time'')] [] [Text ''9:00'']]]]"

definition example_state :: app_state where
  "example_state =
     \<lparr>cols = Some [\<lparr>key = ''notes'', print = False\<rparr>, \<lparr>key = ''time'', print = True\<rparr>],
      projectMeta = Some \<lparr>meta_title = Some ''Day 1''\<rparr>\<rparr>"

definition example_env :: env where
  "example_env =
     \<lparr>SupabaseAPI = Some \<lparr>isAuthenticated = True, getCurrentUser = Some \<lparr>uid = ''u1''\<rparr>\<rparr>,
      schedule = Some example_table,
      readState = Some example_state,
      random = (\<lambda>i. 1 / 2),
      now = ''2024-01-02T00:00:00.000Z'',
      store_now = ''2024-01-01T00:00:00.000Z'',
      select_fails = False, remove_fails = False,
      upload_error = None, update_error = None, insert_error = None\<rparr>"

definition anonymous_env :: env where
  "anonymous_env =
     example_env\<lparr>SupabaseAPI := Some \<lparr>isAuthenticated = False, getCurrentUser = None\<rparr>\<rparr>"

definition empty_world :: world where
  "empty_world =
     \<lparr>currentBroadcast = None, autoBroadcast = False, broadcasts = [], next_id = 1,
      files = [], calls = [], console = [], pushCalls = []\<rparr>"

definition no_options :: options where
  "no_options = \<lparr>opt_title = None, autoUpdate = None\<rparr>"

definition draggable_table :: node where
  "draggable_table =
     Element ''table'' [''schedule''] [(''draggable'', ''true'')] []
       [Element ''tbody'' [] [] []
          [Element ''tr'' [] [(''draggable'', ''true'')] []
             [Element ''td'' [] [(''data-key'', ''time'')] [] [Text ''9:00'']]]]"


definition title_A :: options where
  "title_A = \<lparr>opt_title = Some ''A'', autoUpdate = None\<rparr>"

definition title_B :: options where
  "title_B = \<lparr>opt_title = Some ''B'', autoUpdate = None\<rparr>"

definition after_B_then_A :: "(error + push_result) \<times> world" where
  \<comment> \<open>one session: the title \<open>B\<close> is published, then the title \<open>A\<close>\<close>
  "after_B_then_A =
     pushBroadcast title_A example_env (snd (pushBroadcast title_B example_env empty_world))"

section \<open>File names\<close>

lemma isAlnum_iff:
  "isAlnum c \<longleftrightarrow> c \<in> set ''ABCDEFGHIJKLMNOPQRSTUVWXYZabcdefghijklmnopqrstuvwxyz0123456789''"
  by (cases c) (simp add: isAlnum_def)

text \<open>
  Claim C5. The file name is a function of the title alone: it has the title's length, keeps
  every character of \<open>[A-Za-z0-9]\<close> in its place and has \<open>_\<close> in the place of every other
  character; the title \<open>Q1 Launch!\<close> gives \<open>Q1_Launch_\<close>.
\<close>

theorem deriveFileName_spec:
  "length (deriveFileName t) = length t
   \<and> (\<forall>i < length t. deriveFileName t ! i =
        (if t ! i \<in> set ''ABCDEFGHIJKLMNOPQRSTUVWXYZabcdefghijklmnopqrstuvwxyz0123456789''
         then t ! i else CHR ''_''))
   \<and> deriveFileName ''Q1 Launch!'' = ''Q1_Launch_''"
proof -
  have "deriveFileName ''Q1 Launch!'' = ''Q1_Launch_''"
    by (simp add: deriveFileName_def isAlnum_def)
  then show ?thesis
    by (simp add: deriveFileName_def isAlnum_iff del: set_simps)
qed

theorem deriveFileName_spec_witness:
  "(1::nat) < length ''a b'' \<and> deriveFileName ''a b'' ! 1 = CHR ''_''"
  using deriveFileName_spec [of "''a b''"] by simp


section \<open>Broadcast codes\<close>

lemma length_chars: "length chars = 32"
  by (simp add: chars_def)

lemma charAt_chars:
  fixes r :: real
  assumes "0 \<le> r" "r < 1"
  shows "\<exists>c. charAt chars \<lfloor>r * real (length chars)\<rfloor> = [c] \<and> c \<in> set chars"
proof -
  have "0 \<le> \<lfloor>r * 32\<rfloor>" using assms by simp
  moreover have "\<lfloor>r * 32\<rfloor> < 32" using assms by (simp add: floor_less_iff)
  ultimately have "charAt chars \<lfloor>r * 32\<rfloor> = [chars ! nat \<lfloor>r * 32\<rfloor>]"
    and "nat \<lfloor>r * 32\<rfloor> < length chars"
    by (simp_all add: charAt_def length_chars) linarith
  then show ?thesis
    using nth_mem [of "nat \<lfloor>r * 32\<rfloor>" chars] by (simp add: length_chars)
qed

lemma generateCode_loop_spec:
  assumes "\<forall>j. i \<le> j \<and> j < 6 \<longrightarrow> 0 \<le> rnd j \<and> rnd j < 1"
  shows "\<exists>s. generateCode_loop rnd i acc = acc @ s \<and> length s = 6 - i \<and> set s \<subseteq> set chars"
  using assms
proof (induction rnd i acc rule: generateCode_loop.induct)
  case (1 rnd i acc)
  show ?case
  proof (cases "i < 6")
    case False
    then show ?thesis by (simp add: generateCode_loop.simps)
  next
    case True
    with "1.prems" obtain c where c: "charAt chars \<lfloor>rnd i * real (length chars)\<rfloor> = [c]" "c \<in> set chars"
      using charAt_chars [of "rnd i"] by auto
    from "1.prems" have "\<forall>j. i + 1 \<le> j \<and> j < 6 \<longrightarrow> 0 \<le> rnd j \<and> rnd j < 1" by simp
    from "1.IH" [OF True this] obtain s where
      s: "generateCode_loop rnd (i + 1) (acc @ charAt chars \<lfloor>rnd i * real (length chars)\<rfloor>)
            = (acc @ charAt chars \<lfloor>rnd i * real (length chars)\<rfloor>) @ s"
         "length s = 6 - (i + 1)" "set s \<subseteq> set chars"
      by blast
    have "generateCode_loop rnd i acc = acc @ (c # s)"
      using True s(1) c(1) by (subst generateCode_loop.simps) simp
    moreover have "length (c # s) = 6 - i" using True s(2) by simp
    moreover have "set (c # s) \<subseteq> set chars" using c(2) s(3) by simp
    ultimately show ?thesis by blast
  qed
qed

lemma chars_unambiguous:
  "set chars \<inter> {CHR ''I'', CHR ''O'', CHR ''0'', CHR ''1''} = {}"
  by (simp add: chars_def)

lemma distinct_chars: "distinct chars"
  by (simp add: chars_def)

lemma generateCode_const:
  assumes "j < 32"
  shows "generateCode (\<lambda>i. real j / 32) = replicate 6 (chars ! j)"
proof -
  have "\<lfloor>real j / 32 * real (length chars)\<rfloor> = int j"
    by (simp add: length_chars)
  with assms have "charAt chars \<lfloor>real j / 32 * real (length chars)\<rfloor> = [chars ! j]"
    by (simp add: charAt_def length_chars)
  then show ?thesis
    by (simp add: generateCode_def generateCode_loop.simps eval_nat_numeral)
qed

lemma alphabet_reached:
  assumes "c \<in> set chars"
  shows "\<exists>r. 0 \<le> r \<and> r < 1 \<and> generateCode (\<lambda>i. r) = replicate 6 c"
proof -
  from assms obtain j where j: "j < length chars" "chars ! j = c"
    by (auto simp: in_set_conv_nth)
  then have "j < 32" by (simp add: length_chars)
  from generateCode_const [OF this] j have "generateCode (\<lambda>i. real j / 32) = replicate 6 c"
    by simp
  moreover have "0 \<le> real j / 32" "real j / 32 < 1" using \<open>j < 32\<close> by simp_all
  ultimately show ?thesis by blast
qed

text \<open>
  Claim C6, as amended. When \<open>Math.random()\<close> keeps its contract (values in \<open>[0, 1)\<close>), a
  generated code has exactly 6 characters, all of them from the alphabet \<open>chars\<close>, none of
  them \<open>I\<close>, \<open>O\<close>, \<open>0\<close> or \<open>1\<close>. The alphabet has 32 characters, and each of them occurs
  in some generated code.
\<close>

theorem generateCode_alphabet:
  assumes "\<forall>i < 6. 0 \<le> rnd i \<and> rnd i < 1"
  shows "length (generateCode rnd) = 6
       \<and> set (generateCode rnd) \<subseteq> set chars
       \<and> set (generateCode rnd) \<inter> {CHR ''I'', CHR ''O'', CHR ''0'', CHR ''1''} = {}
       \<and> card (set chars) = 32
       \<and> (\<forall>c \<in> set chars. \<exists>r. 0 \<le> r \<and> r < 1 \<and> generateCode (\<lambda>i. r) = replicate 6 c)"
proof -
  from assms have "\<forall>j. 0 \<le> j \<and> j < 6 \<longrightarrow> 0 \<le> rnd j \<and> rnd j < 1" by simp
  from generateCode_loop_spec [OF this, of "[]"]
  obtain s where s: "generateCode rnd = s" "length s = 6" "set s \<subseteq> set chars"
    by (auto simp: generateCode_def)
  have "card (set chars) = 32"
    using distinct_card [OF distinct_chars] length_chars by simp
  with s chars_unambiguous alphabet_reached show ?thesis by auto
qed

theorem generateCode_alphabet_witness:
  "length (generateCode (\<lambda>i. 1 / 2)) = 6
   \<and> set (generateCode (\<lambda>i. 1 / 2)) \<inter> {CHR ''I'', CHR ''O'', CHR ''0'', CHR ''1''} = {}"
  using generateCode_alphabet [of "\<lambda>i. 1 / 2"] by simp

text \<open>The alphabet of the code does not have 33 characters.\<close>

theorem alphabet_size_counterexample: "card (set chars) \<noteq> 33"
  using distinct_card [OF distinct_chars] length_chars by simp

section \<open>Effects of the remote calls\<close>

lemma selectSingle_frame:
  "selectSingle e u f w = (r, w') \<Longrightarrow>
     pushCalls w' = pushCalls w \<and> broadcasts w' = broadcasts w \<and> files w' = files w
     \<and> console w' = console w \<and> currentBroadcast w' = currentBroadcast w
     \<and> autoBroadcast w' = autoBroadcast w \<and> next_id w' = next_id w
     \<and> calls w' = calls w @ [RecordSelect u f]"
  by (auto simp: selectSingle_def Let_def split: if_splits list.splits)

lemma storageRemove_frame:
  "storageRemove e p w = w' \<Longrightarrow>
     pushCalls w' = pushCalls w \<and> broadcasts w' = broadcasts w
     \<and> console w' = console w \<and> currentBroadcast w' = currentBroadcast w
     \<and> autoBroadcast w' = autoBroadcast w \<and> next_id w' = next_id w
     \<and> calls w' = calls w @ [BlobRemove p]"
  by (auto simp: storageRemove_def)

lemma storageUpload_frame:
  "storageUpload e p body w = (r, w') \<Longrightarrow>
     pushCalls w' = pushCalls w \<and> broadcasts w' = broadcasts w
     \<and> console w' = console w \<and> currentBroadcast w' = currentBroadcast w
     \<and> autoBroadcast w' = autoBroadcast w \<and> next_id w' = next_id w
     \<and> calls w' = calls w @ [BlobUpload p]"
  by (auto simp: storageUpload_def Let_def split: option.splits if_splits)

lemma updateSingle_frame:
  "updateSingle e i t au ts w = (r, w') \<Longrightarrow>
     pushCalls w' = pushCalls w \<and> files w' = files w
     \<and> console w' = console w \<and> currentBroadcast w' = currentBroadcast w
     \<and> autoBroadcast w' = autoBroadcast w \<and> next_id w' = next_id w
     \<and> calls w' = calls w @ [RecordUpdate i t au ts]"
  by (auto simp: updateSingle_def Let_def split: option.splits list.splits)


lemma captureTableHTML_None:
  "captureTableHTML None st con =
     (Inr None, con @ [ConsoleError ''[Broadcast] No schedule table found'' None])"
  by (simp add: captureTableHTML_def)

lemma findBroadcast_frame:
  "findBroadcast e u f w = (r, w') \<Longrightarrow>
     pushCalls w' = pushCalls w \<and> broadcasts w' = broadcasts w \<and> files w' = files w
     \<and> console w' = console w \<and> currentBroadcast w' = currentBroadcast w
     \<and> autoBroadcast w' = autoBroadcast w \<and> next_id w' = next_id w"
  by (auto simp: findBroadcast_def split: option.splits dest: selectSingle_frame)




section \<open>Rejections before any remote call\<close>

text \<open>
  Claim C3. Without an authenticated identity \<open>pushBroadcast\<close> rejects with one of its two
  identity errors, and makes no call to the record store or to the blob store: the list of
  remote calls, the table and the bucket are as before.
\<close>

theorem pushBroadcast_unauthenticated:
  assumes "\<not> authenticated e"
  shows "(fst (pushBroadcast opts e w) = Inl (Error ''Not authenticated'')
          \<or> fst (pushBroadcast opts e w) = Inl (Error ''No user''))
       \<and> calls (snd (pushBroadcast opts e w)) = calls w
       \<and> broadcasts (snd (pushBroadcast opts e w)) = broadcasts w
       \<and> files (snd (pushBroadcast opts e w)) = files w"
  using assms
  by (auto simp: pushBroadcast_def authenticated_def Let_def split: option.splits)

theorem pushBroadcast_unauthenticated_witness:
  "\<not> authenticated anonymous_env
   \<and> calls (snd (pushBroadcast no_options anonymous_env empty_world)) = []
   \<and> broadcasts (snd (pushBroadcast no_options anonymous_env empty_world)) = []"
  using pushBroadcast_unauthenticated [of anonymous_env no_options empty_world]
  by (simp add: anonymous_env_def example_env_def authenticated_def empty_world_def)

text \<open>
  Claim C4. When the schedule table is absent and the run reaches the capture (an
  authenticated identity, the precondition of the first step, is available), the capture fails:
  \<open>captureTableHTML\<close> logs the missing table and returns \<open>null\<close>, and \<open>pushBroadcast\<close>
  rejects with \<open>Could not capture table\<close>. No remote call is made: the list of remote calls,
  the table and the bucket are as before. Without an identity the run ends at the identity
  check, before the capture, and makes no remote call either.
\<close>

theorem pushBroadcast_no_table:
  assumes "schedule e = None"
  shows "(if authenticated e
          then fst (pushBroadcast opts e w) = Inl (Error ''Could not capture table'')
             \<and> console (snd (pushBroadcast opts e w))
                 = console w @ [ConsoleError ''[Broadcast] No schedule table found'' None]
          else fst (pushBroadcast opts e w) = Inl (Error ''Not authenticated'')
             \<or> fst (pushBroadcast opts e w) = Inl (Error ''No user''))
       \<and> calls (snd (pushBroadcast opts e w)) = calls w
       \<and> broadcasts (snd (pushBroadcast opts e w)) = broadcasts w
       \<and> files (snd (pushBroadcast opts e w)) = files w"
  using assms
  by (auto simp: pushBroadcast_def authenticated_def Let_def captureTableHTML_None
      split: option.splits)

theorem pushBroadcast_no_table_witness:
  "schedule (example_env\<lparr>schedule := None\<rparr>) = None
   \<and> authenticated (example_env\<lparr>schedule := None\<rparr>)
   \<and> fst (pushBroadcast no_options (example_env\<lparr>schedule := None\<rparr>) empty_world)
       = Inl (Error ''Could not capture table'')
   \<and> console (snd (pushBroadcast no_options (example_env\<lparr>schedule := None\<rparr>) empty_world))
       = [ConsoleError ''[Broadcast] No schedule table found'' None]
   \<and> calls (snd (pushBroadcast no_options (example_env\<lparr>schedule := None\<rparr>) empty_world)) = []"
  using pushBroadcast_no_table [of "example_env\<lparr>schedule := None\<rparr>" no_options empty_world]
  by (simp add: example_env_def authenticated_def empty_world_def)

section \<open>Successful runs\<close>

lemma pushCaptured_Inr:
  assumes "pushCaptured opts e usr html w1 = (Inr r, w')"
  obtains b w2 w4 data w5 where
    "findBroadcast e (uid usr) (deriveFileName (resolveTitle opts (readState e))) w1 = (b, w2)"
    "storageUpload e (uid usr @ ''/'' @ deriveFileName (resolveTitle opts (readState e)) @ ''.html'')
       html
       (storageRemove e
          (uid usr @ ''/'' @ deriveFileName (resolveTitle opts (readState e)) @ ''.html'') w2)
     = (None, w4)"
    "saveBroadcast opts e (newCode e b) (uid usr)
       (deriveFileName (resolveTitle opts (readState e))) (resolveTitle opts (readState e)) b w4
     = (Inr data, w5)"
    "r = \<lparr>res_code = code data, url = BROADCAST_VIEWER_URL @ ''?c='' @ code data,
           res_title = resolveTitle opts (readState e)\<rparr>"
    "w' = w5\<lparr>currentBroadcast := Some data,
             console := console w5 @
               [ConsoleLog ''[Broadcast] Pushed successfully:'' (Some (code data))]\<rparr>"
  using assms
  by (auto simp: pushCaptured_def Let_def split: prod.splits option.splits sum.splits)

lemma pushBroadcast_Inr:
  assumes "pushBroadcast opts e w = (Inr r, w')"
  obtains api usr html con where
    "SupabaseAPI e = Some api" "isAuthenticated api" "getCurrentUser api = Some usr"
    "captureTableHTML (schedule e) (readState e) (console w) = (Inr (Some html), con)"
    "pushCaptured opts e usr html (w\<lparr>pushCalls := pushCalls w @ [opts], console := con\<rparr>)
     = (Inr r, w')"
  using assms
  by (auto simp: pushBroadcast_def Let_def split: prod.splits option.splits sum.splits if_splits)


section \<open>The title\<close>



section \<open>The auto-broadcast hook\<close>



section \<open>The code of a record\<close>

lemma filter_singleton_mem:
  assumes "filter P xs = [b]" "x \<in> set xs" "P x"
  shows "x = b"
proof -
  from assms(2,3) have "x \<in> set (filter P xs)" by simp
  with assms(1) show ?thesis by simp
qed

lemma updateSingle_Inr:
  assumes "updateSingle e i t au ts w = (Inr d, w')"
  obtains b where
    "filter (\<lambda>b. b_id b = i) (broadcasts w) = [b]"
    "d = b\<lparr>title := t, auto_update := au, updated_at := ts\<rparr>"
    "broadcasts w' =
       map (\<lambda>b. if b_id b = i then b\<lparr>title := t, auto_update := au, updated_at := ts\<rparr> else b)
         (broadcasts w)"
proof -
  let ?upd = "\<lambda>b. if b_id b = i then b\<lparr>title := t, auto_update := au, updated_at := ts\<rparr> else b"
  have fm: "filter (\<lambda>b. b_id b = i) (map ?upd (broadcasts w))
            = map ?upd (filter (\<lambda>b. b_id b = i) (broadcasts w))"
    by (induction "broadcasts w" arbitrary: w) (auto simp: filter_map o_def)
  from assms have ne: "update_error e = None"
    and one: "filter (\<lambda>b. b_id b = i) (map ?upd (broadcasts w)) = [d]"
    and w': "broadcasts w' = map ?upd (broadcasts w)"
    by (auto simp: updateSingle_def Let_def split: option.splits list.splits)
  from one fm obtain b where b: "filter (\<lambda>b. b_id b = i) (broadcasts w) = [b]" "d = ?upd b"
    by (auto simp: map_eq_Cons_conv)
  from b(1) have "b \<in> set (filter (\<lambda>b. b_id b = i) (broadcasts w))" by simp
  then have "b_id b = i" by simp
  with b w' that show ?thesis by simp
qed

lemma updateSingle_idcode:
  "updateSingle e i t au ts w = (r, w') \<Longrightarrow>
     map (\<lambda>b. (b_id b, code b)) (broadcasts w') = map (\<lambda>b. (b_id b, code b)) (broadcasts w)"
  by (auto simp: updateSingle_def Let_def o_def split: option.splits list.splits)

lemma insertSingle_Inr:
  assumes "insertSingle e c u f t au w = (Inr d, w')"
  shows "broadcasts w' = broadcasts w @ [d] \<and> code d = c \<and> user_id d = u \<and> file_name d = f
       \<and> filter (sameRecord u f) (broadcasts w) = []"
  using assms by (auto simp: insertSingle_def Let_def split: option.splits if_splits)

lemma selectSingle_Some:
  assumes "selectSingle e u f w = (Some b, w')"
  shows "filter (sameRecord u f) (broadcasts w) = [b] \<and> broadcasts w' = broadcasts w"
  using assms
  by (auto simp: selectSingle_def Let_def split: if_splits list.splits)

lemma upload_broadcasts:
  "storageUpload e p html (storageRemove e p w) = (r, w') \<Longrightarrow> broadcasts w' = broadcasts w"
  using storageUpload_frame [of e p html "storageRemove e p w" r w']
        storageRemove_frame [OF refl, of e p w]
  by simp

lemma pushCaptured_cached:
  assumes "pushCaptured opts e usr html w = (Inr r, w')"
  shows "\<exists>d. currentBroadcast w' = Some d \<and> res_code r = code d \<and> d \<in> set (broadcasts w')"
proof -
  from assms obtain b w4 data w5 where
    sv: "saveBroadcast opts e (newCode e b) (uid usr)
           (deriveFileName (resolveTitle opts (readState e))) (resolveTitle opts (readState e)) b w4
         = (Inr data, w5)"
    and r: "r = \<lparr>res_code = code data, url = BROADCAST_VIEWER_URL @ ''?c='' @ code data,
                  res_title = resolveTitle opts (readState e)\<rparr>"
    and w': "w' = w5\<lparr>currentBroadcast := Some data,
               console := console w5 @
                 [ConsoleLog ''[Broadcast] Pushed successfully:'' (Some (code data))]\<rparr>"
    by (rule pushCaptured_Inr)
  have "data \<in> set (broadcasts w5)"
  proof (cases b)
    case None
    with sv show ?thesis by (auto simp: saveBroadcast_def dest: insertSingle_Inr)
  next
    case (Some b0)
    with sv have "updateSingle e (b_id b0) (resolveTitle opts (readState e))
        (case autoUpdate opts of Some a \<Rightarrow> a | None \<Rightarrow> auto_update b0) (now e) w4 = (Inr data, w5)"
      by (simp add: saveBroadcast_def)
    then obtain b1 where
      f: "filter (\<lambda>b. b_id b = b_id b0) (broadcasts w4) = [b1]"
      and d: "data = b1\<lparr>title := resolveTitle opts (readState e),
                auto_update := (case autoUpdate opts of Some a \<Rightarrow> a | None \<Rightarrow> auto_update b0),
                updated_at := now e\<rparr>"
      and rows: "broadcasts w5 =
        map (\<lambda>b. if b_id b = b_id b0
                  then b\<lparr>title := resolveTitle opts (readState e),
                         auto_update := (case autoUpdate opts of Some a \<Rightarrow> a | None \<Rightarrow> auto_update b0),
                         updated_at := now e\<rparr>
                  else b) (broadcasts w4)"
      by (rule updateSingle_Inr)
    from f have "b1 \<in> set (filter (\<lambda>b. b_id b = b_id b0) (broadcasts w4))" by simp
    then have "b1 \<in> set (broadcasts w4)" "b_id b1 = b_id b0" by simp_all
    then show ?thesis unfolding rows d by (auto simp: image_iff intro!: bexI [of _ b1])
  qed
  with r w' show ?thesis by simp
qed

lemma pushCaptured_known:
  assumes p: "pushCaptured opts e usr html w = (Inr r, w')"
    and f: "findBroadcast e (uid usr) (deriveFileName (resolveTitle opts (readState e))) w
            = (Some d, w2)"
    and d: "d \<in> set (broadcasts w)"
  shows "res_code r = code d
       \<and> map (\<lambda>b. (b_id b, code b)) (broadcasts w') = map (\<lambda>b. (b_id b, code b)) (broadcasts w)
       \<and> (\<exists>i t au ts. last (calls w') = RecordUpdate i t au ts)"
proof -
  let ?t = "resolveTitle opts (readState e)"
  let ?p = "uid usr @ ''/'' @ deriveFileName ?t @ ''.html''"
  from p obtain b w2' w4 data w5 where
    f': "findBroadcast e (uid usr) (deriveFileName ?t) w = (b, w2')"
    and up: "storageUpload e ?p html (storageRemove e ?p w2') = (None, w4)"
    and sv: "saveBroadcast opts e (newCode e b) (uid usr) (deriveFileName ?t) ?t b w4 = (Inr data, w5)"
    and r: "r = \<lparr>res_code = code data, url = BROADCAST_VIEWER_URL @ ''?c='' @ code data,
                  res_title = ?t\<rparr>"
    and w': "w' = w5\<lparr>currentBroadcast := Some data,
               console := console w5 @
                 [ConsoleLog ''[Broadcast] Pushed successfully:'' (Some (code data))]\<rparr>"
    by (rule pushCaptured_Inr)
  from f f' have b: "b = Some d" and w2: "w2' = w2" by simp_all
  have rows4: "broadcasts w4 = broadcasts w"
    using upload_broadcasts [OF up] findBroadcast_frame [OF f'] by simp
  let ?au = "case autoUpdate opts of Some a \<Rightarrow> a | None \<Rightarrow> auto_update d"
  from sv b have u: "updateSingle e (b_id d) ?t ?au (now e) w4 = (Inr data, w5)"
    by (simp add: saveBroadcast_def)
  then obtain b1 where
    fl: "filter (\<lambda>b. b_id b = b_id d) (broadcasts w4) = [b1]"
    and dd: "data = b1\<lparr>title := ?t, auto_update := ?au, updated_at := now e\<rparr>"
    by (rule updateSingle_Inr)
  have "d = b1" using filter_singleton_mem [OF fl, of d] d rows4 by simp
  with dd have "code data = code d" by simp
  moreover have "map (\<lambda>b. (b_id b, code b)) (broadcasts w5) = map (\<lambda>b. (b_id b, code b)) (broadcasts w)"
    using updateSingle_idcode [OF u] rows4 by simp
  moreover have "last (calls w5) = RecordUpdate (b_id d) ?t ?au (now e)"
    using updateSingle_frame [OF u] by simp
  ultimately show ?thesis using r w' by simp
qed

lemma pushCaptured_fresh:
  assumes p: "pushCaptured opts e usr html w = (Inr r, w')"
    and c: "currentBroadcast w = None"
  shows "\<exists>d. filter (sameRecord (uid usr) (deriveFileName (resolveTitle opts (readState e))))
               (broadcasts w') = [d]
             \<and> res_code r = code d"
proof -
  let ?t = "resolveTitle opts (readState e)"
  let ?f = "deriveFileName ?t"
  let ?p = "uid usr @ ''/'' @ ?f @ ''.html''"
  from p obtain b w2 w4 data w5 where
    f: "findBroadcast e (uid usr) ?f w = (b, w2)"
    and up: "storageUpload e ?p html (storageRemove e ?p w2) = (None, w4)"
    and sv: "saveBroadcast opts e (newCode e b) (uid usr) ?f ?t b w4 = (Inr data, w5)"
    and r: "r = \<lparr>res_code = code data, url = BROADCAST_VIEWER_URL @ ''?c='' @ code data,
                  res_title = ?t\<rparr>"
    and w': "w' = w5\<lparr>currentBroadcast := Some data,
               console := console w5 @
                 [ConsoleLog ''[Broadcast] Pushed successfully:'' (Some (code data))]\<rparr>"
    by (rule pushCaptured_Inr)
  from f c have sel: "selectSingle e (uid usr) ?f w = (b, w2)"
    by (simp add: findBroadcast_def)
  have rows4: "broadcasts w4 = broadcasts w"
    using upload_broadcasts [OF up] findBroadcast_frame [OF f] by simp
  have "filter (sameRecord (uid usr) ?f) (broadcasts w5) = [data]"
  proof (cases b)
    case None
    with sv have "broadcasts w5 = broadcasts w4 @ [data]"
      "user_id data = uid usr" "file_name data = ?f"
      "filter (sameRecord (uid usr) ?f) (broadcasts w4) = []"
      by (auto simp: saveBroadcast_def dest: insertSingle_Inr)
    then show ?thesis by simp
  next
    case (Some b0)
    let ?au = "case autoUpdate opts of Some a \<Rightarrow> a | None \<Rightarrow> auto_update b0"
    let ?upd = "\<lambda>b. if b_id b = b_id b0
                  then b\<lparr>title := ?t, auto_update := ?au, updated_at := now e\<rparr> else b"
    from sel Some have key: "filter (sameRecord (uid usr) ?f) (broadcasts w) = [b0]"
      by (auto dest: selectSingle_Some)
    then have "b0 \<in> set (filter (sameRecord (uid usr) ?f) (broadcasts w))" by simp
    then have b0: "b0 \<in> set (broadcasts w)" by simp
    from sv Some have u: "updateSingle e (b_id b0) ?t ?au (now e) w4 = (Inr data, w5)"
      by (simp add: saveBroadcast_def)
    then obtain b1 where
      fl: "filter (\<lambda>b. b_id b = b_id b0) (broadcasts w4) = [b1]"
      and dd: "data = b1\<lparr>title := ?t, auto_update := ?au, updated_at := now e\<rparr>"
      and rows5: "broadcasts w5 = map ?upd (broadcasts w4)"
      by (rule updateSingle_Inr)
    have "b0 = b1" using filter_singleton_mem [OF fl, of b0] b0 rows4 by simp
    have "filter (sameRecord (uid usr) ?f) (map ?upd (broadcasts w4))
          = map ?upd (filter (sameRecord (uid usr) ?f) (broadcasts w4))"
      by (induction "broadcasts w4" arbitrary: w4) (auto simp: filter_map o_def)
    with rows5 rows4 key have "filter (sameRecord (uid usr) ?f) (broadcasts w5) = [?upd b0]"
      by simp
    with dd \<open>b0 = b1\<close> show ?thesis by simp
  qed
  with r w' show ?thesis by simp
qed

lemma pushCaptured_found:
  assumes p: "pushCaptured opts e usr html w = (Inr r, w')"
    and c: "currentBroadcast w = None"
    and k: "filter (sameRecord (uid usr) (deriveFileName (resolveTitle opts (readState e))))
              (broadcasts w) = [d]"
  shows "res_code r = code d
       \<and> map idCode (broadcasts w') = map idCode (broadcasts w)
       \<and> (\<exists>i t au ts. last (calls w') = RecordUpdate i t au ts)"
proof -
  let ?t = "resolveTitle opts (readState e)"
  let ?f = "deriveFileName ?t"
  let ?p = "uid usr @ ''/'' @ ?f @ ''.html''"
  from p obtain b w2 w4 data w5 where
    f: "findBroadcast e (uid usr) ?f w = (b, w2)"
    and up: "storageUpload e ?p html (storageRemove e ?p w2) = (None, w4)"
    and sv: "saveBroadcast opts e (newCode e b) (uid usr) ?f ?t b w4 = (Inr data, w5)"
    by (rule pushCaptured_Inr)
  from f c have sel: "selectSingle e (uid usr) ?f w = (b, w2)"
    by (simp add: findBroadcast_def)
  have rows4: "broadcasts w4 = broadcasts w"
    using upload_broadcasts [OF up] findBroadcast_frame [OF f] by simp
  from k have "d \<in> set (filter (sameRecord (uid usr) ?f) (broadcasts w))" by simp
  then have d: "d \<in> set (broadcasts w)" by simp
  have "b = Some d"
  proof (cases b)
    case None
    with sv have "filter (sameRecord (uid usr) ?f) (broadcasts w4) = []"
      by (auto simp: saveBroadcast_def dest: insertSingle_Inr)
    with k rows4 show ?thesis by simp
  next
    case (Some b0)
    with sel have "filter (sameRecord (uid usr) ?f) (broadcasts w) = [b0]"
      by (auto dest: selectSingle_Some)
    with k Some show ?thesis by simp
  qed
  with f have "findBroadcast e (uid usr) ?f w = (Some d, w2)" by simp
  from pushCaptured_known [OF p this d] show ?thesis .
qed

lemma pushBroadcast_ownerId:
  assumes "SupabaseAPI e = Some api" "isAuthenticated api" "getCurrentUser api = Some usr"
  shows "ownerId e = Some (uid usr)"
  using assms by (simp add: ownerId_def)

text \<open>
  Two successful runs for the same owner and the same title give the same code, and the second
  ends with the update of the existing record, when the second run is in the same session or
  when it is in a new session and the first run started from an empty cache.
\<close>

lemma same_code_again:
  assumes first: "pushBroadcast opts1 e1 w = (Inr r1, w1)"
    and second: "pushBroadcast opts2 e2 w1' = (Inr r2, w2)"
    and owner: "ownerId e2 = ownerId e1"
    and same_title: "resolveTitle opts2 (readState e2) = resolveTitle opts1 (readState e1)"
    and session:
      "w1' = w1 \<or> (w1' = w1\<lparr>currentBroadcast := None\<rparr> \<and> currentBroadcast w = None)"
  shows "res_code r2 = res_code r1
       \<and> map idCode (broadcasts w2) = map idCode (broadcasts w1)
       \<and> (\<exists>i t au ts. last (calls w2) = RecordUpdate i t au ts)"
proof -
  let ?f = "deriveFileName (resolveTitle opts1 (readState e1))"
  from first obtain api1 usr1 html1 con1 where
    a1: "SupabaseAPI e1 = Some api1" "isAuthenticated api1" "getCurrentUser api1 = Some usr1"
    and p1: "pushCaptured opts1 e1 usr1 html1
               (w\<lparr>pushCalls := pushCalls w @ [opts1], console := con1\<rparr>) = (Inr r1, w1)"
    by (rule pushBroadcast_Inr)
  from second obtain api2 usr2 html2 con2 where
    a2: "SupabaseAPI e2 = Some api2" "isAuthenticated api2" "getCurrentUser api2 = Some usr2"
    and p2: "pushCaptured opts2 e2 usr2 html2
               (w1'\<lparr>pushCalls := pushCalls w1' @ [opts2], console := con2\<rparr>) = (Inr r2, w2)"
    by (rule pushBroadcast_Inr)
  let ?wb = "w1'\<lparr>pushCalls := pushCalls w1' @ [opts2], console := con2\<rparr>"
  from owner have u: "uid usr2 = uid usr1"
    using pushBroadcast_ownerId [OF a1] pushBroadcast_ownerId [OF a2] by simp
  from session show ?thesis
  proof
    assume same: "w1' = w1"
    from pushCaptured_cached [OF p1] obtain d where
      d: "currentBroadcast w1 = Some d" "res_code r1 = code d" "d \<in> set (broadcasts w1)"
      by blast
    with same have
      "findBroadcast e2 (uid usr2) (deriveFileName (resolveTitle opts2 (readState e2))) ?wb
       = (Some d, ?wb)"
      and "d \<in> set (broadcasts ?wb)"
      by (simp_all add: findBroadcast_def)
    from pushCaptured_known [OF p2 this] d(2) same show ?thesis by simp
  next
    assume fresh: "w1' = w1\<lparr>currentBroadcast := None\<rparr> \<and> currentBroadcast w = None"
    with pushCaptured_fresh [OF p1] obtain d where
      d: "filter (sameRecord (uid usr1) ?f) (broadcasts w1) = [d]" "res_code r1 = code d"
      by auto
    from d(1) fresh u same_title have
      "filter (sameRecord (uid usr2) (deriveFileName (resolveTitle opts2 (readState e2))))
         (broadcasts ?wb) = [d]"
      and "currentBroadcast ?wb = None"
      by simp_all
    from pushCaptured_found [OF p2 this(2) this(1)] d(2) fresh show ?thesis by simp
  qed
qed

lemma generateCode_half: "generateCode (\<lambda>i. 1 / 2) = ''SSSSSS''"
  by (simp add: generateCode_def generateCode_loop.simps chars_def charAt_def)

lemma generateCode_zero: "generateCode (\<lambda>i. 0) = ''AAAAAA''"
  by (simp add: generateCode_def generateCode_loop.simps chars_def charAt_def)

lemmas run_defs =
  pushBroadcast_def pushCaptured_def example_env_def empty_world_def Let_def
  captureTableHTML_def hiddenCols_def stateCols_def example_state_def plainKey_def
  resolveTitle_def orElse_def deriveFileName_def isAlnum_def findBroadcast_def selectSingle_def
  newCode_def generateCode_half storageRemove_def storageUpload_def saveBroadcast_def
  insertSingle_def updateSingle_def title_A_def title_B_def BROADCAST_VIEWER_URL_def

text \<open>
  No run of \<open>pushBroadcast\<close>, whatever its outcome, changes the id or the code of a record of
  the table.
\<close>

lemma insertSingle_rows:
  "insertSingle e c u f t au w = (r, w') \<Longrightarrow>
     broadcasts w' = broadcasts w \<or> (\<exists>row. broadcasts w' = broadcasts w @ [row])"
  by (auto simp: insertSingle_def Let_def split: option.splits if_splits)

lemma saveBroadcast_idcode:
  assumes "saveBroadcast opts e c u f t b w = (r, w')"
  shows "take (length (broadcasts w)) (map idCode (broadcasts w')) = map idCode (broadcasts w)"
proof (cases b)
  case None
  with assms insertSingle_rows show ?thesis
    by (fastforce simp: saveBroadcast_def)
next
  case (Some b0)
  with assms have "map idCode (broadcasts w') = map idCode (broadcasts w)"
    by (auto simp: saveBroadcast_def dest: updateSingle_idcode)
  then show ?thesis by simp
qed

lemma pushCaptured_idcode:
  assumes "pushCaptured opts e usr html w = (r, w')"
  shows "take (length (broadcasts w)) (map idCode (broadcasts w')) = map idCode (broadcasts w)"
proof -
  let ?t = "resolveTitle opts (readState e)"
  let ?p = "uid usr @ ''/'' @ deriveFileName ?t @ ''.html''"
  obtain b w2 where f: "findBroadcast e (uid usr) (deriveFileName ?t) w = (b, w2)"
    by (cases "findBroadcast e (uid usr) (deriveFileName ?t) w")
  obtain r4 w4 where u: "storageUpload e ?p html (storageRemove e ?p w2) = (r4, w4)"
    by (cases "storageUpload e ?p html (storageRemove e ?p w2)")
  obtain r5 w5 where
    sv: "saveBroadcast opts e (newCode e b) (uid usr) (deriveFileName ?t) ?t b w4 = (r5, w5)"
    by (cases "saveBroadcast opts e (newCode e b) (uid usr) (deriveFileName ?t) ?t b w4")
  have rows4: "broadcasts w4 = broadcasts w"
    using upload_broadcasts [OF u] findBroadcast_frame [OF f] by simp
  have "broadcasts w' = broadcasts w4 \<or> broadcasts w' = broadcasts w5"
    using assms f u sv
    by (auto simp: pushCaptured_def Let_def split: option.splits sum.splits)
  then show ?thesis
    using saveBroadcast_idcode [OF sv] rows4 by auto
qed

lemma pushBroadcast_idcode:
  assumes "pushBroadcast opts e w = (r, w')"
  shows "take (length (broadcasts w)) (map idCode (broadcasts w')) = map idCode (broadcasts w)"
proof -
  have "broadcasts w' = broadcasts w
        \<or> (\<exists>usr html con. pushCaptured opts e usr html
               (w\<lparr>pushCalls := pushCalls w @ [opts], console := con\<rparr>) = (r, w'))"
    using assms
    by (auto simp: pushBroadcast_def Let_def split: option.splits sum.splits prod.splits if_splits)
  then show ?thesis
    using pushCaptured_idcode by fastforce
qed

text \<open>
  Claim C2 on concrete sessions. In the first session the title \<open>B\<close> is published and then
  the title \<open>A\<close>; the cached record of \<open>B\<close> is updated and its code returned. In a new
  session \<open>A\<close> is published again: no record has the file name \<open>A\<close>, so a second record is
  created and another code returned. The two runs for the owner \<open>u1\<close> and the title \<open>A\<close>
  give two codes, and the second run ends with an insert.
\<close>

theorem stale_cache_splits_code:
  "fst after_B_then_A
     = Inr \<lparr>res_code = ''SSSSSS'',
            url = ''https://marcoajello.github.io/skeduler-broadcast/?c=SSSSSS'',
            res_title = ''A''\<rparr>
   \<and> fst (pushBroadcast title_A (example_env\<lparr>random := (\<lambda>i. 0)\<rparr>)
            ((snd after_B_then_A)\<lparr>currentBroadcast := None\<rparr>))
     = Inr \<lparr>res_code = ''AAAAAA'',
            url = ''https://marcoajello.github.io/skeduler-broadcast/?c=AAAAAA'',
            res_title = ''A''\<rparr>
   \<and> last (calls (snd (pushBroadcast title_A (example_env\<lparr>random := (\<lambda>i. 0)\<rparr>)
                         ((snd after_B_then_A)\<lparr>currentBroadcast := None\<rparr>))))
     = RecordInsert ''AAAAAA'' ''u1'' ''A'' ''A'' False
   \<and> map (\<lambda>b. (b_id b, code b, file_name b, title b))
        (broadcasts (snd (pushBroadcast title_A (example_env\<lparr>random := (\<lambda>i. 0)\<rparr>)
                            ((snd after_B_then_A)\<lparr>currentBroadcast := None\<rparr>))))
     = [(1, ''SSSSSS'', ''B'', ''A''), (2, ''AAAAAA'', ''A'', ''A'')]"
  by (simp add: after_B_then_A_def run_defs generateCode_zero)

text \<open>
  Within one session the title plays no part: a successful run after a successful run returns
  the code of the cached record and creates no record, whatever the two titles are.
\<close>

lemma same_session_same_code:
  assumes first: "pushBroadcast oa ea wa = (Inr ra, wa')"
    and second: "pushBroadcast ob eb wa' = (Inr rb, wb')"
  shows "res_code rb = res_code ra
       \<and> map idCode (broadcasts wb') = map idCode (broadcasts wa')"
proof -
  from first obtain usr1 html1 con1 where
    p1: "pushCaptured oa ea usr1 html1
           (wa\<lparr>pushCalls := pushCalls wa @ [oa], console := con1\<rparr>) = (Inr ra, wa')"
    by (rule pushBroadcast_Inr)
  from second obtain usr2 html2 con2 where
    p2: "pushCaptured ob eb usr2 html2
           (wa'\<lparr>pushCalls := pushCalls wa' @ [ob], console := con2\<rparr>) = (Inr rb, wb')"
    by (rule pushBroadcast_Inr)
  let ?w = "wa'\<lparr>pushCalls := pushCalls wa' @ [ob], console := con2\<rparr>"
  from pushCaptured_cached [OF p1] obtain d where
    d: "currentBroadcast wa' = Some d" "res_code ra = code d" "d \<in> set (broadcasts wa')"
    by blast
  then have "findBroadcast eb (uid usr2) (deriveFileName (resolveTitle ob (readState eb))) ?w
             = (Some d, ?w)"
    and "d \<in> set (broadcasts ?w)"
    by (simp_all add: findBroadcast_def)
  from pushCaptured_known [OF p2 this] d(2) show ?thesis by simp
qed

text \<open>
  Claim C1 on a concrete session: after the title \<open>A\<close> is published, the title \<open>B\<close>
  (another file name) published in the same session gets the code of \<open>A\<close>; the table still
  has the one record, with the file name \<open>A\<close> and the title \<open>B\<close>, while the snapshot went to
  the path of \<open>B\<close>. In a new session the same second run creates a second record with a code
  of its own.
\<close>

theorem title_change_reuses_record:
  "fst (pushBroadcast title_A example_env empty_world)
     = Inr \<lparr>res_code = ''SSSSSS'',
            url = ''https://marcoajello.github.io/skeduler-broadcast/?c=SSSSSS'',
            res_title = ''A''\<rparr>
   \<and> fst (pushBroadcast title_B (example_env\<lparr>random := (\<lambda>i. 0)\<rparr>)
            (snd (pushBroadcast title_A example_env empty_world)))
     = Inr \<lparr>res_code = ''SSSSSS'',
            url = ''https://marcoajello.github.io/skeduler-broadcast/?c=SSSSSS'',
            res_title = ''B''\<rparr>
   \<and> broadcasts (snd (pushBroadcast title_B (example_env\<lparr>random := (\<lambda>i. 0)\<rparr>)
                   (snd (pushBroadcast title_A example_env empty_world))))
     = [\<lparr>b_id = 1, code = ''SSSSSS'', user_id = ''u1'', file_name = ''A'', title = ''B'',
         auto_update = False, updated_at = ''2024-01-02T00:00:00.000Z''\<rparr>]
   \<and> map fst (files (snd (pushBroadcast title_B (example_env\<lparr>random := (\<lambda>i. 0)\<rparr>)
                   (snd (pushBroadcast title_A example_env empty_world)))))
     = [''u1/A.html'', ''u1/B.html'']
   \<and> deriveFileName ''A'' \<noteq> deriveFileName ''B''
   \<and> fst (pushBroadcast title_B (example_env\<lparr>random := (\<lambda>i. 0)\<rparr>)
            ((snd (pushBroadcast title_A example_env empty_world))\<lparr>currentBroadcast := None\<rparr>))
     = Inr \<lparr>res_code = ''AAAAAA'',
            url = ''https://marcoajello.github.io/skeduler-broadcast/?c=AAAAAA'',
            res_title = ''B''\<rparr>
   \<and> map file_name
        (broadcasts (snd (pushBroadcast title_B (example_env\<lparr>random := (\<lambda>i. 0)\<rparr>)
            ((snd (pushBroadcast title_A example_env empty_world))\<lparr>currentBroadcast := None\<rparr>))))
     = [''A'', ''B'']"
  by (simp add: run_defs generateCode_zero)

section \<open>Interactive elements in the snapshot\<close>

lemma interactive_removeElements [simp]: "interactive (removeElements sel n) = interactive n"
  by (cases n) simp_all

lemma interactive_removeAttributeDeep [simp]:
  "interactive (removeAttributeDeep a n) = interactive n"
  by (cases n) simp_all

lemma hasAttribute_removeAttributeDeep [simp]:
  "\<not> hasAttribute a (removeAttributeDeep a n)"
proof (cases n)
  case (Element t cs as st ch)
  have "map_of (filter (\<lambda>(n, v). n \<noteq> a) as) a = None"
    by (induction as) auto
  with Element show ?thesis by simp
next
  case (Text s)
  then show ?thesis by simp
qed

lemma descendants_removeElements:
  "n \<in> set (descendants (removeElements interactive t)) \<Longrightarrow> \<not> interactive n"
proof (induction interactive t arbitrary: n rule: removeElements.induct)
  case (1 t cs as st ch)
  from "1.prems" obtain c where c: "c \<in> set ch" "\<not> interactive c"
    and n: "n = removeElements interactive c \<or> n \<in> set (descendants (removeElements interactive c))"
    by auto
  from n show ?case
  proof
    assume "n = removeElements interactive c"
    with c show ?thesis by simp
  next
    assume "n \<in> set (descendants (removeElements interactive c))"
    with "1.hyps" c show ?thesis by auto
  qed
next
  case (2 s)
  then show ?case by simp
qed

lemma descendants_removeAttributeDeep:
  "descendants (removeAttributeDeep a t) = map (removeAttributeDeep a) (descendants t)"
proof (induction a t rule: removeAttributeDeep.induct)
  case (1 a t cs as st ch)
  have "concat (map (\<lambda>c. c # descendants c) (map (removeAttributeDeep a) ch))
        = map (removeAttributeDeep a) (concat (map (\<lambda>c. c # descendants c) ch))"
    using "1.IH" by (induction ch) auto
  then show ?case by simp
next
  case (2 a s)
  then show ?case by simp
qed

lemma descendants_removeDraggable:
  "descendants (removeDraggable t) = map (removeAttributeDeep ''draggable'') (descendants t)"
proof (cases t)
  case (Element t cs as st ch)
  have "concat (map (\<lambda>c. c # descendants c) (map (removeAttributeDeep ''draggable'') ch))
        = map (removeAttributeDeep ''draggable'') (concat (map (\<lambda>c. c # descendants c) ch))"
    by (induction ch) (auto simp: descendants_removeAttributeDeep)
  with Element show ?thesis by simp
next
  case (Text s)
  then show ?thesis by simp
qed

lemma captureClone_descendants:
  assumes "n \<in> set (descendants (captureClone hidden table))"
  shows "\<not> interactive n \<and> \<not> hasAttribute ''draggable'' n"
proof -
  from assms obtain m where
    m: "m \<in> set (descendants (removeElements interactive (fold hideKey hidden table)))"
    and n: "n = removeAttributeDeep ''draggable'' m"
    by (auto simp: captureClone_def descendants_removeDraggable)
  from descendants_removeElements [OF m] n show ?thesis by simp
qed

text \<open>
  Below the root of the snapshot's markup there is no element that matches
  \<open>button, input, .drag-cell, .sharpie, .actions-cell\<close> and no element with a \<open>draggable\<close>
  attribute.
\<close>

lemma snapshot_below_root:
  assumes "captureTableHTML (Some table) st con = (Inr (Some snap), con')"
  shows "\<forall>n \<in> set (descendants (markup snap)).
           \<not> interactive n \<and> \<not> hasAttribute ''draggable'' n"
proof -
  from assms have "markup snap = captureClone (hiddenCols st) table"
    by (auto simp: captureTableHTML_def Let_def split: if_splits)
  then show ?thesis using captureClone_descendants by simp
qed

lemma example_hidden:
  "hiddenCols (Some example_state) = [''notes'', ''drag'', ''sharpie'', ''actions'']"
  by (simp add: hiddenCols_def stateCols_def example_state_def)

lemma example_capture:
  "captureTableHTML (Some example_table) (Some example_state) []
   = (Inr (Some \<lparr>styleSheet = captureStyles,
                  markup = captureClone (hiddenCols (Some example_state)) example_table\<rparr>), [])"
  by (simp add: captureTableHTML_def Let_def example_hidden plainKey_def)

lemma example_clone:
  "captureClone [''notes'', ''drag'', ''sharpie'', ''actions''] example_table =
     Element ''table'' [''schedule''] [] []
       [Element ''colgroup'' [] [] []
          [Element ''col'' [] [(''data-key'', ''notes'')] [(''width'', ''0px'')] []],
        Element ''thead'' [] [] []
          [Element ''tr'' [] [] []
             [Element ''th'' [] [(''data-key'', ''notes'')] [(''display'', ''none'')]
                [Text ''Notes'']]],
        Element ''tbody'' [] [] []
          [Element ''tr'' [] [] []
             [Element ''td'' [] [(''data-key'', ''notes'')] [(''display'', ''none'')]
                [Text ''hello''],
              Element ''td'' [] [(''data-key'', ''time'')] [] [Text ''9:00'']]]]"
  by (simp add: captureClone_def example_table_def hideKey_def)

lemma snapshot_below_root_example:
  "list_all (\<lambda>n. \<not> interactive n \<and> \<not> hasAttribute ''draggable'' n)
     (descendants (captureClone (hiddenCols (Some example_state)) example_table))
   \<and> length (descendants (captureClone (hiddenCols (Some example_state)) example_table)) = 12"
  using snapshot_below_root [OF example_capture]
  by (simp add: example_hidden example_clone list_all_iff)

text \<open>
  Claim C8 on a concrete table. A table that carries the \<open>draggable\<close> attribute itself keeps
  it in the snapshot, while the row below it loses its own: \<open>querySelectorAll\<close> on the clone
  returns the elements below the clone, not the clone.
\<close>

theorem snapshot_root_keeps_draggable:
  "fst (captureTableHTML (Some draggable_table) None [])
     = Inr (Some \<lparr>styleSheet = captureStyles,
                   markup =
                     Element ''table'' [''schedule''] [(''draggable'', ''true'')] []
                       [Element ''tbody'' [] [] []
                          [Element ''tr'' [] [] []
                             [Element ''td'' [] [(''data-key'', ''time'')] []
                                [Text ''9:00'']]]]\<rparr>)
   \<and> hasAttribute ''draggable''
        (Element ''table'' [''schedule''] [(''draggable'', ''true'')] []
           [Element ''tbody'' [] [] []
              [Element ''tr'' [] [] []
                 [Element ''td'' [] [(''data-key'', ''time'')] [] [Text ''9:00'']]]])"
  by (simp add: captureTableHTML_def Let_def hiddenCols_def stateCols_def plainKey_def
      captureClone_def draggable_table_def hideKey_def)

section \<open>Hidden columns\<close>

text \<open>
  The effect of \<open>captureTableHTML\<close> on the column definitions, the header cells and the
  body cells, read off the document-order lists \<open>marked\<close>: the removal of the interactive
  elements drops the flagged elements, the removal of \<open>draggable\<close> changes nothing in the
  lists, \<open>querySelector\<close> styles the first element of a key and \<open>querySelectorAll\<close>
  every element of a key, and a step for one tag leaves the lists of the other tags as they
  are.
\<close>

lemma kept_append [simp]: "kept (xs @ ys) = kept xs @ kept ys"
  by (simp add: kept_def)

lemma kept_Nil [simp]: "kept [] = []"
  by (simp add: kept_def)










lemma interactive_eraseOthers [simp]: "interactive (eraseOthers keep n) = interactive n"
  by (cases n) simp_all





































end
